theory Spec2Isabelle
  imports Complex_Main
begin

section \<open>JavaScript strings and the regular expressions of the rule table\<close>

text \<open>
  A string is a list of characters, each a code unit below 256 (ASCII and Latin-1), on
  which the model follows JavaScript: \<^verbatim>\<open>toLowerCase\<close> maps A-Z and the accented
  capitals 0xC0-0xDE (but not the multiplication sign 0xD7) to the letter 32 places
  later, and only ASCII letters, digits and the underscore are word characters of a
  regular expression without the \<^verbatim>\<open>u\<close> flag.
\<close>

definition ascii_upper :: string where
  "ascii_upper = ''ABCDEFGHIJKLMNOPQRSTUVWXYZ''"

definition ascii_lower :: string where
  "ascii_lower = ''abcdefghijklmnopqrstuvwxyz''"

definition ascii_digits :: string where
  "ascii_digits = ''0123456789''"

definition lower_char :: "char \<Rightarrow> char" where
  "lower_char c =
     (let n = (of_char c :: nat) in
      if (65 \<le> n \<and> n \<le> 90) \<or> (192 \<le> n \<and> n \<le> 222 \<and> n \<noteq> 215)
      then char_of (n + 32) else c)"

definition toLowerCase :: "string \<Rightarrow> string" where
  "toLowerCase s = map lower_char s"

text \<open>The class \<^verbatim>\<open>\w\<close> and the assertion \<^verbatim>\<open>\b\<close>: a position is a word boundary when
  exactly one of the characters around it is a word character (the ends of the input
  count as non-word).\<close>

definition is_word_char :: "char \<Rightarrow> bool" where
  "is_word_char c = (c \<in> set (ascii_upper @ ascii_lower @ ascii_digits @ ''_''))"

definition is_word :: "char option \<Rightarrow> bool" where
  "is_word oc = (case oc of None \<Rightarrow> False | Some c \<Rightarrow> is_word_char c)"

definition word_boundary :: "char option \<Rightarrow> char option \<Rightarrow> bool" where
  "word_boundary l r = (is_word l \<noteq> is_word r)"

fun head_opt :: "string \<Rightarrow> char option" where
  "head_opt [] = None"
| "head_opt (c # cs) = Some c"

text \<open>Comparison under the \<^verbatim>\<open>i\<close> flag.\<close>

definition ci_eq :: "char \<Rightarrow> char \<Rightarrow> bool" where
  "ci_eq a b = (lower_char a = lower_char b)"

fun ci_prefix :: "string \<Rightarrow> string \<Rightarrow> bool" where
  "ci_prefix [] s = True"
| "ci_prefix (p # ps) [] = False"
| "ci_prefix (p # ps) (c # cs) = (ci_eq p c \<and> ci_prefix ps cs)"

text \<open>
  Every pattern of the rule table is an alternation of literal words followed by
  \<^verbatim>\<open>\b\<close>, with the flag \<^verbatim>\<open>i\<close>. All but one start with \<^verbatim>\<open>\b\<close> as well;
  \<^verbatim>\<open>/\education\b/i\<close> does not: \<^verbatim>\<open>\e\<close> is an identity escape that matches the letter e.
  \<open>leading\<close> records whether the pattern starts with \<^verbatim>\<open>\b\<close>.
\<close>

datatype regex = Regex (leading: bool) (alternatives: "string list")

definition char_before :: "char option \<Rightarrow> string \<Rightarrow> nat \<Rightarrow> char option" where
  "char_before prev s n = (if n = 0 then prev else head_opt (drop (n - 1) s))"

definition match_at :: "regex \<Rightarrow> char option \<Rightarrow> string \<Rightarrow> bool" where
  "match_at r prev s =
     list_ex (\<lambda>pat.
        (if leading r then word_boundary prev (head_opt s) else True)
        \<and> ci_prefix pat s
        \<and> word_boundary (char_before prev s (length pat)) (head_opt (drop (length pat) s)))
       (alternatives r)"

fun test_from :: "regex \<Rightarrow> char option \<Rightarrow> string \<Rightarrow> bool" where
  "test_from r prev [] = match_at r prev []"
| "test_from r prev (c # cs) = (match_at r prev (c # cs) \<or> test_from r (Some c) cs)"

definition regex_test :: "regex \<Rightarrow> string \<Rightarrow> bool" where
  "regex_test r s = test_from r None s"

section \<open>Record-count estimator\<close>

text \<open>
  \<^verbatim>\<open>estimateRecordCount(fileSizeMB, averageRecordSize = 200)\<close>. Numbers are rationals; the
  default parameter applies when the argument is missing (\<open>None\<close>). For a zero divisor
  JavaScript yields \<^verbatim>\<open>Infinity\<close> or \<^verbatim>\<open>NaN\<close>, which is no record count: \<open>None\<close>.
\<close>

definition estimateRecordCount :: "rat \<Rightarrow> rat option \<Rightarrow> int option" where
  "estimateRecordCount fileSizeMB averageRecordSize =
     (let avg = (case averageRecordSize of None \<Rightarrow> 200 | Some a \<Rightarrow> a);
          bytes = fileSizeMB * 1024 * 1024
      in if avg = 0 then None else Some \<lfloor>bytes / avg\<rfloor>)"

text \<open>The \<^verbatim>\<open>switch (fileType)\<close> of the request handler that picks the average record size.\<close>

definition averageRecordSize :: "string \<Rightarrow> rat" where
  "averageRecordSize fileType =
     (if fileType = ''csv'' then 100 else if fileType = ''xml'' then 300 else 200)"

section \<open>Synthesis rule table\<close>

record fieldspec =
  name :: string
  type :: string
  primaryKey :: bool

text \<open>The library calls a rule can select, with the arguments the source passes.\<close>

datatype generator =
    PersonFullName
  | InternetEmail
  | RandomEducationLevel
  | PhoneNumber
  | PersonSexType
  | LocationCity
  | LocationState
  | LocationStreetAddress
  | LocationCountry
  | LocationZipCode
  | CompanyName
  | DateBirthdate
  | StringUuid
  | FinanceAmount int int nat string
  | NumberInt int int
  | LoremSentences nat
  | InternetUrl
  | ImageAvatar
  | LoremWord
  | DatatypeNumber
  | DatatypeNumberMinMax int int
  | DatatypeBoolean
  | DatePastISOString
  | UuidV4
  | EmptyString

text \<open>The \<^verbatim>\<open>switch (prop.type)\<close> of \<^verbatim>\<open>generateField\<close> in \<^verbatim>\<open>src/unnamed/part_000\<close>.\<close>

definition type_rule :: "string \<Rightarrow> generator" where
  "type_rule t =
     (if t = ''string'' then LoremWord
      else if t = ''number'' then DatatypeNumber
      else if t = ''boolean'' then DatatypeBoolean
      else if t = ''date'' then DatePastISOString
      else if t = ''address'' then LocationStreetAddress
      else if t = ''uuid'' then StringUuid
      else EmptyString)"

text \<open>Rule selection of \<^verbatim>\<open>generateField\<close> in \<^verbatim>\<open>src/unnamed/part_000\<close>: the chain of
  regular-expression tests on the lower-cased name, then the type switch.\<close>

definition generateField_rule :: "fieldspec \<Rightarrow> generator" where
  "generateField_rule prop =
     (let propNameLower = toLowerCase (name prop) in
      if regex_test (Regex True [''name'']) propNameLower then PersonFullName
      else if regex_test (Regex True [''email'']) propNameLower then InternetEmail
      else if regex_test (Regex False [''education'']) propNameLower then RandomEducationLevel
      else if regex_test (Regex True [''phone'', ''contact'']) propNameLower then PhoneNumber
      else if regex_test (Regex True [''gender'']) propNameLower then PersonSexType
      else if regex_test (Regex True [''city'']) propNameLower then LocationCity
      else if regex_test (Regex True [''state'']) propNameLower then LocationState
      else if regex_test (Regex True [''address'']) propNameLower then LocationStreetAddress
      else if regex_test (Regex True [''country'']) propNameLower then LocationCountry
      else if regex_test (Regex True [''zip'', ''postal'']) propNameLower then LocationZipCode
      else if regex_test (Regex True [''company'']) propNameLower then CompanyName
      else if regex_test (Regex True [''date'', ''dob'']) propNameLower then DateBirthdate
      else if regex_test (Regex True [''id'', ''uuid'']) propNameLower then StringUuid
      else if regex_test (Regex True [''salary'', ''income'']) propNameLower
        then FinanceAmount 30000 150000 2 ''$''
      else if regex_test (Regex True [''age'']) propNameLower then NumberInt 18 80
      else if regex_test (Regex True [''description'', ''bio'']) propNameLower
        then LoremSentences 2
      else if regex_test (Regex True [''url'', ''website'']) propNameLower then InternetUrl
      else if regex_test (Regex True [''image'', ''avatar'']) propNameLower then ImageAvatar
      else type_rule (type prop))"

text \<open>Rule selection of \<^verbatim>\<open>generateField\<close> in \<^verbatim>\<open>src/index.js\<close>: three exact names, each
  with its type, then a type switch whose \<^verbatim>\<open>uuid\<close> case calls \<^verbatim>\<open>uuidv4()\<close>.\<close>

definition index_type_rule :: "string \<Rightarrow> generator" where
  "index_type_rule t =
     (if t = ''string'' then LoremWord
      else if t = ''number'' then DatatypeNumber
      else if t = ''boolean'' then DatatypeBoolean
      else if t = ''date'' then DatePastISOString
      else if t = ''address'' then LocationStreetAddress
      else if t = ''uuid'' then UuidV4
      else EmptyString)"

definition index_generateField_rule :: "fieldspec \<Rightarrow> generator" where
  "index_generateField_rule prop =
     (let propNameLower = toLowerCase (name prop) in
      if propNameLower = ''name'' \<and> type prop = ''string'' then PersonFullName
      else if propNameLower = ''email'' \<and> type prop = ''email'' then InternetEmail
      else if propNameLower = ''phone'' \<and> type prop = ''phone'' then PhoneNumber
      else index_type_rule (type prop))"

section \<open>Values, records and the library\<close>

text \<open>
  The values a record can hold: strings, numbers (every number the program stores is
  an integer), booleans, \<^verbatim>\<open>Date\<close> objects (by their time value), \<^verbatim>\<open>undefined\<close>, and
  what reading an inherited property gives: \<^verbatim>\<open>Object.prototype\<close> itself or one of its
  methods.
\<close>

datatype jsval =
    VStr string
  | VNum int
  | VBool bool
  | VDate int
  | VUndefined
  | VObjectPrototype
  | VFunction

definition is_object :: "jsval \<Rightarrow> bool" where
  "is_object v = (case v of VDate d \<Rightarrow> True | VObjectPrototype \<Rightarrow> True | VFunction \<Rightarrow> True
                   | _ \<Rightarrow> False)"

text \<open>
  \<^verbatim>\<open>const record = {}\<close> is an ordinary object: its own properties, and its prototype
  (\<open>None\<close> stands for \<^verbatim>\<open>Object.prototype\<close>). \<^verbatim>\<open>record[k] = v\<close> writes an own property,
  except for the key \<^verbatim>\<open>__proto__\<close>: it is an accessor inherited from \<^verbatim>\<open>Object.prototype\<close>,
  whose setter replaces the prototype when \<open>v\<close> is an object and does nothing when \<open>v\<close>
  is a primitive. \<^verbatim>\<open>record[k]\<close> reads the own property; for \<^verbatim>\<open>__proto__\<close> it reads the
  prototype, for another missing key a method of \<^verbatim>\<open>Object.prototype\<close> or \<^verbatim>\<open>undefined\<close>.
  The own properties are listed in the order of their first assignment; JavaScript
  enumerates keys that are array indices before the others, which nothing below
  depends on.
\<close>

record jsobject =
  props :: "(string \<times> jsval) list"
  proto :: "jsval option"

definition empty_object :: jsobject where
  "empty_object = \<lparr>props = [], proto = None\<rparr>"

fun assign :: "string \<Rightarrow> jsval \<Rightarrow> (string \<times> jsval) list \<Rightarrow> (string \<times> jsval) list" where
  "assign k v [] = [(k, v)]"
| "assign k v ((k', v') # ps) = (if k' = k then (k, v) # ps else (k', v') # assign k v ps)"

definition has_own :: "jsobject \<Rightarrow> string \<Rightarrow> bool" where
  "has_own obj k = (k \<in> set (map fst (props obj)))"

definition js_set :: "jsobject \<Rightarrow> string \<Rightarrow> jsval \<Rightarrow> jsobject" where
  "js_set obj k v =
     (if has_own obj k then obj\<lparr>props := assign k v (props obj)\<rparr>
      else if k = ''__proto__'' then (if is_object v then obj\<lparr>proto := Some v\<rparr> else obj)
      else obj\<lparr>props := assign k v (props obj)\<rparr>)"

definition object_prototype_methods :: "string list" where
  "object_prototype_methods =
     [''constructor'', ''hasOwnProperty'', ''isPrototypeOf'', ''propertyIsEnumerable'',
      ''toLocaleString'', ''toString'', ''valueOf'', ''__defineGetter__'',
      ''__defineSetter__'', ''__lookupGetter__'', ''__lookupSetter__'']"

definition js_get :: "jsobject \<Rightarrow> string \<Rightarrow> jsval" where
  "js_get obj k =
     (case map_of (props obj) k of
        Some v \<Rightarrow> v
      | None \<Rightarrow>
          if k = ''__proto__'' then (case proto obj of None \<Rightarrow> VObjectPrototype | Some p \<Rightarrow> p)
          else if k \<in> set object_prototype_methods then VFunction
          else VUndefined)"

text \<open>\<^verbatim>\<open>Object.keys(record)\<close>, as a set.\<close>

definition keys :: "jsobject \<Rightarrow> string set" where
  "keys obj = set (map fst (props obj))"

text \<open>
  The libraries (\<^verbatim>\<open>@faker-js/faker\<close>, \<^verbatim>\<open>uuid\<close>, \<^verbatim>\<open>Math.random\<close>) and the built-in
  conversions are not code of this repository: they are parameters. Each random call
  takes the state of the pseudo-random source and returns the next one. The fields are
  typed by what the call returns: a string, a number, a boolean or a \<^verbatim>\<open>Date\<close>.
  \<open>ToString\<close> is the string conversion of a value that is not a string, and
  \<open>JSON_stringify\<close> is \<^verbatim>\<open>JSON.stringify\<close> on a record.
\<close>

record 's platform =
  faker_string :: "generator \<Rightarrow> 's \<Rightarrow> string \<times> 's"
  faker_number :: "generator \<Rightarrow> 's \<Rightarrow> int \<times> 's"
  faker_boolean :: "generator \<Rightarrow> 's \<Rightarrow> bool \<times> 's"
  faker_date :: "generator \<Rightarrow> 's \<Rightarrow> int \<times> 's"
  Math_random :: "'s \<Rightarrow> rat \<times> 's"
  ToString :: "jsval \<Rightarrow> string"
  JSON_stringify :: "jsobject \<Rightarrow> string"

definition educationLevels :: "string list" where
  "educationLevels =
     [''High School'', ''Associate Degree'', ''Bachelor's Degree'', ''Master's Degree'',
      ''Doctorate'', ''Ph D'', ''Professional Certification'']"

text \<open>\<^verbatim>\<open>educationLevels[Math.floor(Math.random() * educationLevels.length)]\<close>; an index
  outside the array reads \<^verbatim>\<open>undefined\<close>.\<close>

definition getRandomEducationLevel :: "'s platform \<Rightarrow> 's \<Rightarrow> jsval \<times> 's" where
  "getRandomEducationLevel P s =
     (let (r, s') = Math_random P s;
          randomIndex = \<lfloor>r * of_nat (length educationLevels)\<rfloor>
      in (if 0 \<le> randomIndex \<and> randomIndex < int (length educationLevels)
          then VStr (educationLevels ! nat randomIndex) else VUndefined, s'))"

text \<open>The call a rule stands for, run on the random state.\<close>

definition run_generator :: "'s platform \<Rightarrow> generator \<Rightarrow> 's \<Rightarrow> jsval \<times> 's" where
  "run_generator P g s =
     (case g of
        RandomEducationLevel \<Rightarrow> getRandomEducationLevel P s
      | EmptyString \<Rightarrow> (VStr [], s)
      | DateBirthdate \<Rightarrow> (let (d, s') = faker_date P g s in (VDate d, s'))
      | NumberInt lo hi \<Rightarrow> (let (n, s') = faker_number P g s in (VNum n, s'))
      | DatatypeNumber \<Rightarrow> (let (n, s') = faker_number P g s in (VNum n, s'))
      | DatatypeNumberMinMax lo hi \<Rightarrow> (let (n, s') = faker_number P g s in (VNum n, s'))
      | DatatypeBoolean \<Rightarrow> (let (b, s') = faker_boolean P g s in (VBool b, s'))
      | _ \<Rightarrow> (let (x, s') = faker_string P g s in (VStr x, s')))"

text \<open>\<^verbatim>\<open>generateField\<close> of \<^verbatim>\<open>src/unnamed/part_000\<close> and of \<^verbatim>\<open>src/index.js\<close>.\<close>

definition generateField :: "'s platform \<Rightarrow> fieldspec \<Rightarrow> 's \<Rightarrow> jsval \<times> 's" where
  "generateField P prop s = run_generator P (generateField_rule prop) s"

definition index_generateField :: "'s platform \<Rightarrow> fieldspec \<Rightarrow> 's \<Rightarrow> jsval \<times> 's" where
  "index_generateField P prop s = run_generator P (index_generateField_rule prop) s"

section \<open>Record synthesizer\<close>

text \<open>
  \<^verbatim>\<open>generateRecord\<close> has the same text in both source files and differs only in the
  \<^verbatim>\<open>generateField\<close> it calls, which is the parameter \<open>gen\<close>. \<open>populate\<close> is the
  \<^verbatim>\<open>properties.forEach\<close> loop.
\<close>

type_synonym 's field_generator = "fieldspec \<Rightarrow> 's \<Rightarrow> jsval \<times> 's"

fun populate :: "'s field_generator \<Rightarrow> fieldspec list \<Rightarrow> jsobject \<Rightarrow> 's \<Rightarrow> jsobject \<times> 's" where
  "populate gen [] record s = (record, s)"
| "populate gen (prop # rest) record s =
     (let (v, s') = gen prop s in populate gen rest (js_set record (name prop) v) s')"

definition generateRecord ::
  "'s platform \<Rightarrow> 's field_generator \<Rightarrow> fieldspec list \<Rightarrow> 's \<Rightarrow> jsobject \<times> 's" where
  "generateRecord P gen properties s =
     (let (record, s1) = populate gen properties empty_object s in
      case find primaryKey properties of
        None \<Rightarrow> (record, s1)
      | Some primaryKeyProp \<Rightarrow>
          if type primaryKeyProp = ''number'' then
            (let (n, s2) = faker_number P (DatatypeNumberMinMax 10 1000000000000000000) s1
             in (js_set record (name primaryKeyProp) (VNum n), s2))
          else if type primaryKeyProp = ''uuid'' \<or> type primaryKeyProp = ''string'' then
            (let (u, s2) = faker_string P UuidV4 s1
             in (js_set record (name primaryKeyProp) (VStr u), s2))
          else (record, s1))"

text \<open>The textual shape of a version-4 UUID, as \<^verbatim>\<open>uuidv4()\<close> documents it.\<close>

definition is_uuid_v4 :: "string \<Rightarrow> bool" where
  "is_uuid_v4 u =
     (length u = 36 \<and>
      list_all (\<lambda>(i, c).
          if i = 8 \<or> i = 13 \<or> i = 18 \<or> i = 23 then c = CHR ''-''
          else if i = 14 then c = CHR ''4''
          else if i = 19 then c \<in> set ''89ab''
          else c \<in> set ''0123456789abcdef'')
        (zip [0..<36] u))"

section \<open>Streaming encoder\<close>

subsection \<open>Rendering one record\<close>

definition dquote :: char where
  "dquote = CHR 0x22"

definition newline :: char where
  "newline = CHR 0x0A"

text \<open>\<^verbatim>\<open>Array.prototype.join\<close> on strings.\<close>

fun join :: "string \<Rightarrow> string list \<Rightarrow> string" where
  "join sep [] = []"
| "join sep [x] = x"
| "join sep (x # y # ys) = x @ sep @ join sep (y # ys)"

text \<open>\<^verbatim>\<open>join\<close> turns \<^verbatim>\<open>undefined\<close> into the empty string and converts every other
  element to a string; a template literal converts every value.\<close>

definition join_element :: "'s platform \<Rightarrow> jsval \<Rightarrow> string" where
  "join_element P v = (case v of VUndefined \<Rightarrow> [] | VStr x \<Rightarrow> x | _ \<Rightarrow> ToString P v)"

definition template_element :: "'s platform \<Rightarrow> jsval \<Rightarrow> string" where
  "template_element P v = (case v of VStr x \<Rightarrow> x | _ \<Rightarrow> ToString P v)"

text \<open>\<^verbatim>\<open>value.replace(/"/g, '""')\<close> and \<^verbatim>\<open>value.search(/("|,|\n)/g) >= 0\<close>.\<close>

definition replace_quotes :: "string \<Rightarrow> string" where
  "replace_quotes x = concat (map (\<lambda>c. if c = dquote then [dquote, dquote] else [c]) x)"

definition search_special :: "string \<Rightarrow> bool" where
  "search_special x = list_ex (\<lambda>c. c = dquote \<or> c = CHR '','' \<or> c = newline) x"

text \<open>The callback of \<^verbatim>\<open>properties.map\<close> in \<^verbatim>\<open>streamCSV\<close>, applied to \<^verbatim>\<open>record[prop.name]\<close>.\<close>

definition csv_value :: "jsval \<Rightarrow> jsval" where
  "csv_value v =
     (case v of
        VStr x \<Rightarrow>
          (let v1 = replace_quotes x
           in if search_special v1 then VStr ([dquote] @ v1 @ [dquote]) else VStr v1)
      | _ \<Rightarrow> v)"

definition csvLine :: "'s platform \<Rightarrow> fieldspec list \<Rightarrow> jsobject \<Rightarrow> string" where
  "csvLine P properties record =
     join '','' (map (\<lambda>prop. join_element P (csv_value (js_get record (name prop)))) properties)
       @ [newline]"

definition csv_headers :: "fieldspec list \<Rightarrow> string" where
  "csv_headers properties = join '','' (map name properties) @ [newline]"

definition xmlElement :: "'s platform \<Rightarrow> fieldspec list \<Rightarrow> jsobject \<Rightarrow> string" where
  "xmlElement P properties record =
     ''  <record>'' @ [newline]
       @ concat (map (\<lambda>prop. ''    <'' @ name prop @ ''>''
                        @ template_element P (js_get record (name prop))
                        @ ''</'' @ name prop @ ''>'' @ [newline]) properties)
       @ ''  </record>'' @ [newline]"

datatype format = CSV | JSON | XML

text \<open>What each stream function writes before the loop, for one record (\<open>sent\<close> is
  \<^verbatim>\<open>sentRecords\<close> after its increment) and after the loop (\<^verbatim>\<open>streamCSV\<close> writes nothing
  there).\<close>

definition prologue :: "format \<Rightarrow> fieldspec list \<Rightarrow> string" where
  "prologue fmt properties =
     (case fmt of
        CSV \<Rightarrow> csv_headers properties
      | JSON \<Rightarrow> ''[''
      | XML \<Rightarrow> ''<?xml version='' @ [dquote] @ ''1.0'' @ [dquote] @ '' encoding='' @ [dquote]
                @ ''UTF-8'' @ [dquote] @ ''?>'' @ [newline] @ ''<records>'' @ [newline])"

definition render ::
  "'s platform \<Rightarrow> format \<Rightarrow> fieldspec list \<Rightarrow> nat \<Rightarrow> nat \<Rightarrow> jsobject \<Rightarrow> string" where
  "render P fmt properties recordCount sent record =
     (case fmt of
        CSV \<Rightarrow> csvLine P properties record
      | JSON \<Rightarrow> JSON_stringify P record @ (if sent < recordCount then '','' else [])
      | XML \<Rightarrow> xmlElement P properties record)"

definition epilogue :: "format \<Rightarrow> string list" where
  "epilogue fmt = (case fmt of CSV \<Rightarrow> [] | JSON \<Rightarrow> ['']''] | XML \<Rightarrow> [''</records>''])"

subsection \<open>The session and its flow control\<close>

text \<open>
  What a stream function works with besides its arguments: the libraries, the
  \<^verbatim>\<open>generateField\<close> of its file, and the sink. \<open>res_write k\<close> is what the call number \<open>k\<close>
  of \<^verbatim>\<open>res.write\<close> returns (the prologue is call 0): \<open>False\<close> is the backpressure signal.
\<close>

record 's environment =
  platform :: "'s platform"
  field_generator :: "'s field_generator"
  res_write :: "nat \<Rightarrow> bool"

text \<open>
  The state of one session: the counter \<^verbatim>\<open>sentRecords\<close>, the random state, the chunks
  passed to \<^verbatim>\<open>res.write\<close> in order, the number of calls of \<^verbatim>\<open>generateRecord\<close>, the number
  of flush requests, whether \<^verbatim>\<open>generate\<close> is registered as the one-time listener of
  \<^verbatim>\<open>'drain'\<close>, and whether \<^verbatim>\<open>res.end()\<close> was called. The response headers are left out.
\<close>

record 's session =
  sentRecords :: nat
  random :: 's
  written :: "string list"
  synthesized :: nat
  flushed :: nat
  listening :: bool
  ended :: bool

text \<open>One pass through the body of the \<^verbatim>\<open>while\<close> loop of \<^verbatim>\<open>generate\<close>: a record is
  synthesized and rendered, the counter incremented, the chunk written, and a flush
  requested after every 1000 records. What \<^verbatim>\<open>res.write\<close> returns is read by the loop.\<close>

definition loop_body ::
  "'s environment \<Rightarrow> format \<Rightarrow> fieldspec list \<Rightarrow> nat \<Rightarrow> 's session \<Rightarrow> 's session" where
  "loop_body E fmt properties recordCount st =
     (let (record, s') =
            generateRecord (platform E) (field_generator E) properties (random st);
          sent = sentRecords st + 1;
          line = render (platform E) fmt properties recordCount sent record
      in st\<lparr>sentRecords := sent, random := s', written := written st @ [line],
            synthesized := synthesized st + 1,
            flushed := (if sent mod 1000 = 0 then flushed st + 1 else flushed st)\<rparr>)"

text \<open>The loop \<^verbatim>\<open>while (sentRecords < recordCount && ok)\<close>, with
  \<^verbatim>\<open>ok = res.write(...)\<close> for the call whose number is the count of chunks written so far.\<close>

function generate_loop ::
  "'s environment \<Rightarrow> format \<Rightarrow> fieldspec list \<Rightarrow> nat \<Rightarrow> bool \<Rightarrow> 's session \<Rightarrow> 's session" where
  "generate_loop E fmt properties recordCount ok st =
     (if sentRecords st < recordCount \<and> ok
      then generate_loop E fmt properties recordCount (res_write E (length (written st)))
             (loop_body E fmt properties recordCount st)
      else st)"
  by pat_completeness auto
termination
  by (relation "measure (\<lambda>(E, fmt, properties, recordCount, ok, st). recordCount - sentRecords st)")
     (auto simp: loop_body_def split: prod.splits)

declare generate_loop.simps [simp del]

text \<open>\<^verbatim>\<open>generate\<close>: the loop, then either \<^verbatim>\<open>res.once('drain', generate)\<close> or the epilogue
  and \<^verbatim>\<open>res.end()\<close>.\<close>

definition generate ::
  "'s environment \<Rightarrow> format \<Rightarrow> fieldspec list \<Rightarrow> nat \<Rightarrow> 's session \<Rightarrow> 's session" where
  "generate E fmt properties recordCount st =
     (let st' = generate_loop E fmt properties recordCount True st in
      if sentRecords st' < recordCount then st'\<lparr>listening := True\<rparr>
      else st'\<lparr>written := written st' @ epilogue fmt, ended := True\<rparr>)"

text \<open>\<^verbatim>\<open>streamCSV\<close>, \<^verbatim>\<open>streamJSON\<close> and \<^verbatim>\<open>streamXML\<close>: the prologue, the counter at 0 and the
  first call of \<^verbatim>\<open>generate\<close>.\<close>

definition stream ::
  "'s environment \<Rightarrow> format \<Rightarrow> fieldspec list \<Rightarrow> nat \<Rightarrow> 's \<Rightarrow> 's session" where
  "stream E fmt properties recordCount s0 =
     generate E fmt properties recordCount
       \<lparr>sentRecords = 0, random = s0, written = [prologue fmt properties], synthesized = 0,
        flushed = 0, listening = False, ended = False\<rparr>"

definition streamCSV :: "'s environment \<Rightarrow> fieldspec list \<Rightarrow> nat \<Rightarrow> 's \<Rightarrow> 's session" where
  "streamCSV E properties recordCount s0 = stream E CSV properties recordCount s0"

definition streamJSON :: "'s environment \<Rightarrow> fieldspec list \<Rightarrow> nat \<Rightarrow> 's \<Rightarrow> 's session" where
  "streamJSON E properties recordCount s0 = stream E JSON properties recordCount s0"

definition streamXML :: "'s environment \<Rightarrow> fieldspec list \<Rightarrow> nat \<Rightarrow> 's \<Rightarrow> 's session" where
  "streamXML E properties recordCount s0 = stream E XML properties recordCount s0"

text \<open>
  Between two runs of \<^verbatim>\<open>generate\<close> the session only reacts to events. A \<^verbatim>\<open>'drain'\<close>
  event calls the registered listener and removes it (\<^verbatim>\<open>once\<close>); with no listener it
  does nothing. No other event runs code of the session.
\<close>

datatype event = Drain | Other

definition on_event ::
  "'s environment \<Rightarrow> format \<Rightarrow> fieldspec list \<Rightarrow> nat \<Rightarrow> event \<Rightarrow> 's session \<Rightarrow> 's session" where
  "on_event E fmt properties recordCount ev st =
     (case ev of
        Drain \<Rightarrow>
          if listening st then generate E fmt properties recordCount (st\<lparr>listening := False\<rparr>)
          else st
      | Other \<Rightarrow> st)"

fun deliver ::
  "'s environment \<Rightarrow> format \<Rightarrow> fieldspec list \<Rightarrow> nat \<Rightarrow> event list \<Rightarrow> 's session \<Rightarrow> 's session" where
  "deliver E fmt properties recordCount [] st = st"
| "deliver E fmt properties recordCount (ev # evs) st =
     deliver E fmt properties recordCount evs (on_event E fmt properties recordCount ev st)"

text \<open>The records of a session in the order of synthesis: the random state before
  record \<open>i\<close> (counted from 0), the record, and its chunk.\<close>

fun random_before :: "'s environment \<Rightarrow> fieldspec list \<Rightarrow> 's \<Rightarrow> nat \<Rightarrow> 's" where
  "random_before E properties s0 0 = s0"
| "random_before E properties s0 (Suc i) =
     snd (generateRecord (platform E) (field_generator E) properties
            (random_before E properties s0 i))"

definition record_at :: "'s environment \<Rightarrow> fieldspec list \<Rightarrow> 's \<Rightarrow> nat \<Rightarrow> jsobject" where
  "record_at E properties s0 i =
     fst (generateRecord (platform E) (field_generator E) properties
            (random_before E properties s0 i))"

definition chunk_at ::
  "'s environment \<Rightarrow> format \<Rightarrow> fieldspec list \<Rightarrow> nat \<Rightarrow> 's \<Rightarrow> nat \<Rightarrow> string" where
  "chunk_at E fmt properties recordCount s0 i =
     render (platform E) fmt properties recordCount (Suc i) (record_at E properties s0 i)"

section \<open>Request handler\<close>

text \<open>The parsed request body (\<^verbatim>\<open>express.json()\<close>). Reading a member that is absent, or a
  member of a value that is not an object, gives \<^verbatim>\<open>undefined\<close> (\<open>None\<close>); of duplicate
  keys the last one counts.\<close>

datatype json =
    JNull
  | JBool bool
  | JNum rat
  | JStr string
  | JArr "json list"
  | JObj "(string \<times> json) list"

definition js_member :: "json \<Rightarrow> string \<Rightarrow> json option" where
  "js_member v k = (case v of JObj kvs \<Rightarrow> map_of (rev kvs) k | _ \<Rightarrow> None)"

text \<open>Truthiness, as \<^verbatim>\<open>properties.filter((prop) => prop.primaryKey)\<close> and
  \<^verbatim>\<open>properties.find\<close> read it.\<close>

definition truthy :: "json option \<Rightarrow> bool" where
  "truthy v =
     (case v of
        None \<Rightarrow> False
      | Some JNull \<Rightarrow> False
      | Some (JBool b) \<Rightarrow> b
      | Some (JNum n) \<Rightarrow> n \<noteq> 0
      | Some (JStr x) \<Rightarrow> x \<noteq> []
      | Some (JArr xs) \<Rightarrow> True
      | Some (JObj kvs) \<Rightarrow> True)"

definition is_primary :: "json \<Rightarrow> bool" where
  "is_primary prop = truthy (js_member prop ''primaryKey'')"

text \<open>\<^verbatim>\<open>String.prototype.trim\<close> on code units below 256.\<close>

definition is_space :: "char \<Rightarrow> bool" where
  "is_space c = (c \<in> set [CHR 0x09, CHR 0x0A, CHR 0x0B, CHR 0x0C, CHR 0x0D, CHR 0x20, CHR 0xA0])"

definition trim :: "string \<Rightarrow> string" where
  "trim x = rev (dropWhile is_space (rev (dropWhile is_space x)))"

definition validTypes :: "string list" where
  "validTypes =
     [''string'', ''number'', ''boolean'', ''date'', ''email'', ''phone'', ''address'', ''uuid'']"

text \<open>The condition of the \<^verbatim>\<open>for (const prop of properties)\<close> loop.\<close>

definition invalid_property :: "json \<Rightarrow> bool" where
  "invalid_property prop =
     (case js_member prop ''name'' of
        Some (JStr n) \<Rightarrow>
          trim n = [] \<or> js_member prop ''type'' \<notin> set (map (\<lambda>t. Some (JStr t)) validTypes)
      | _ \<Rightarrow> True)"

text \<open>What the stream functions read of a validated property.\<close>

definition to_fieldspec :: "json \<Rightarrow> fieldspec" where
  "to_fieldspec prop =
     \<lparr>name = (case js_member prop ''name'' of Some (JStr n) \<Rightarrow> n | _ \<Rightarrow> []),
      type = (case js_member prop ''type'' of Some (JStr t) \<Rightarrow> t | _ \<Rightarrow> []),
      primaryKey = is_primary prop\<rparr>"

text \<open>A reply is an error status with its message, sent before any call of a stream
  function, or the session a stream function started.\<close>

datatype 's reply = Rejected nat string | Streaming "'s session"

definition reply_chunks :: "'s reply \<Rightarrow> string list" where
  "reply_chunks r = (case r of Rejected status msg \<Rightarrow> [] | Streaming st \<Rightarrow> written st)"

text \<open>
  \<^verbatim>\<open>app.post('/api/generate', ...)\<close>. A \<^verbatim>\<open>null\<close> body makes the destructuring throw, and a
  \<^verbatim>\<open>null\<close> element of \<^verbatim>\<open>properties\<close> makes \<^verbatim>\<open>prop.primaryKey\<close> throw inside \<^verbatim>\<open>filter\<close>:
  the \<^verbatim>\<open>catch\<close> block answers 500.
\<close>

definition api_generate :: "'s environment \<Rightarrow> json \<Rightarrow> 's \<Rightarrow> 's reply" where
  "api_generate E body s0 =
     (if body = JNull then Rejected 500 ''Internal Server Error.''
      else
        (case js_member body ''fileType'' of
           Some (JStr fileType) \<Rightarrow>
             if fileType \<notin> set [''json'', ''csv'', ''xml'']
             then Rejected 400 ''Invalid fileType. Allowed types: json, csv, xml.''
             else
               (case js_member body ''fileSize'' of
                  Some (JNum fileSize) \<Rightarrow>
                    if fileSize < 1 \<or> fileSize > 1000
                    then Rejected 400 ''fileSize must be a number between 1 and 1000 MB.''
                    else
                      (case js_member body ''properties'' of
                         Some (JArr properties) \<Rightarrow>
                           if properties = []
                           then Rejected 400 ''properties must be a non-empty array.''
                           else if JNull \<in> set properties
                           then Rejected 500 ''Internal Server Error.''
                           else
                             (let primaryKeys = filter is_primary properties in
                              if length primaryKeys > 1
                              then Rejected 400 ''Only one property can be marked as primaryKey.''
                              else if length primaryKeys = 0
                              then Rejected 400
                                     ''At least one property must be marked as primaryKey.''
                              else if list_ex invalid_property properties
                              then Rejected 400
                                     (''Each property must have a valid 'name' (non-empty string) and 'type' (''
                                        @ join '', '' validTypes @ '').'')
                              else
                                (let estimatedRecords =
                                       nat (the (estimateRecordCount fileSize
                                                   (Some (averageRecordSize fileType))));
                                     fields = map to_fieldspec properties
                                 in if fileType = ''json''
                                    then Streaming (streamJSON E fields estimatedRecords s0)
                                    else if fileType = ''csv''
                                    then Streaming (streamCSV E fields estimatedRecords s0)
                                    else if fileType = ''xml''
                                    then Streaming (streamXML E fields estimatedRecords s0)
                                    else Rejected 400 ''Unsupported fileType.''))
                       | _ \<Rightarrow> Rejected 400 ''properties must be a non-empty array.'')
                | _ \<Rightarrow> Rejected 400 ''fileSize must be a number between 1 and 1000 MB.'')
         | _ \<Rightarrow> Rejected 400 ''Invalid fileType. Allowed types: json, csv, xml.''))"

section \<open>What the specification says, for comparison with the code\<close>

text \<open>
  The rule table as the specification words it: every name pattern, \<^verbatim>\<open>education\<close>
  included, is a whole-word pattern, tried in the stated order before the declared type.
\<close>

definition spec_name_patterns :: "(string list \<times> generator) list" where
  "spec_name_patterns =
     [([''name''], PersonFullName),
      ([''email''], InternetEmail),
      ([''education''], RandomEducationLevel),
      ([''phone'', ''contact''], PhoneNumber),
      ([''gender''], PersonSexType),
      ([''city''], LocationCity),
      ([''state''], LocationState),
      ([''address''], LocationStreetAddress),
      ([''country''], LocationCountry),
      ([''zip'', ''postal''], LocationZipCode),
      ([''company''], CompanyName),
      ([''date'', ''dob''], DateBirthdate),
      ([''id'', ''uuid''], StringUuid),
      ([''salary'', ''income''], FinanceAmount 30000 150000 2 ''$''),
      ([''age''], NumberInt 18 80),
      ([''description'', ''bio''], LoremSentences 2),
      ([''url'', ''website''], InternetUrl),
      ([''image'', ''avatar''], ImageAvatar)]"

fun spec_first_match :: "(string list \<times> generator) list \<Rightarrow> string \<Rightarrow> generator option" where
  "spec_first_match [] n = None"
| "spec_first_match ((words, g) # rest) n =
     (if regex_test (Regex True words) n then Some g else spec_first_match rest n)"

definition spec_rule :: "fieldspec \<Rightarrow> generator" where
  "spec_rule prop =
     (case spec_first_match spec_name_patterns (toLowerCase (name prop)) of
        Some g \<Rightarrow> g
      | None \<Rightarrow> type_rule (type prop))"

text \<open>
  A valid request as the specification lists it: a supported format tag, a size that is
  a number from 1 to 1000, a non-empty array of fields, exactly one of them the primary
  key, and every field with a non-empty name and one of the eight type tags. A field
  counts as the primary key when its \<^verbatim>\<open>primaryKey\<close> member is truthy, which for a boolean
  member is \<^verbatim>\<open>primaryKey = true\<close>.
\<close>

definition spec_valid_field :: "json \<Rightarrow> bool" where
  "spec_valid_field prop =
     (case (js_member prop ''name'', js_member prop ''type'') of
        (Some (JStr n), Some (JStr t)) \<Rightarrow> n \<noteq> [] \<and> t \<in> set validTypes
      | _ \<Rightarrow> False)"

definition spec_valid_request :: "json \<Rightarrow> bool" where
  "spec_valid_request body =
     (case (js_member body ''fileType'', js_member body ''fileSize'',
            js_member body ''properties'') of
        (Some (JStr fileType), Some (JNum fileSize), Some (JArr properties)) \<Rightarrow>
          fileType \<in> set [''json'', ''csv'', ''xml'']
          \<and> 1 \<le> fileSize \<and> fileSize \<le> 1000
          \<and> properties \<noteq> []
          \<and> length (filter is_primary properties) = 1
          \<and> list_all spec_valid_field properties
      | _ \<Rightarrow> False)"



section \<open>A concrete platform, for running the model\<close>

text \<open>A platform over a counter as random state: every call returns a value fixed by
  the counter and increments it.\<close>

fun decimal :: "nat \<Rightarrow> string" where
  "decimal n =
     (if n < 10 then [ascii_digits ! n] else decimal (n div 10) @ [ascii_digits ! (n mod 10)])"

definition example_platform :: "nat platform" where
  "example_platform =
     \<lparr>faker_string = (\<lambda>g s.
          (if g = UuidV4 \<or> g = StringUuid then ''123e4567-e89b-42d3-a456-426614174000''
           else if g = LocationCity then ''Paris, Texas''
           else ''lorem'', Suc s)),
      faker_number = (\<lambda>g s.
          (case g of
             DatatypeNumberMinMax lo hi \<Rightarrow> lo + int s mod (hi - lo + 1)
           | NumberInt lo hi \<Rightarrow> lo + int s mod (hi - lo + 1)
           | _ \<Rightarrow> int s mod 100000, Suc s)),
      faker_boolean = (\<lambda>g s. (even s, Suc s)),
      faker_date = (\<lambda>g s. (int s, Suc s)),
      Math_random = (\<lambda>s. (of_nat (s mod 7) / 7, Suc s)),
      ToString = (\<lambda>v. case v of
                         VNum n \<Rightarrow> (if n < 0 then ''-'' @ decimal (nat (- n)) else decimal (nat n))
                       | VBool b \<Rightarrow> (if b then ''true'' else ''false'')
                       | VUndefined \<Rightarrow> ''undefined''
                       | _ \<Rightarrow> ''[object Object]''),
      JSON_stringify = (\<lambda>r. ''{}'')\<rparr>"

definition example_environment :: "nat environment" where
  "example_environment =
     \<lparr>platform = example_platform,
      field_generator = generateField example_platform,
      res_write = (\<lambda>k. k \<noteq> 1)\<rparr>"

definition example_schema :: "fieldspec list" where
  "example_schema =
     [\<lparr>name = ''id'', type = ''number'', primaryKey = True\<rparr>,
      \<lparr>name = ''city'', type = ''string'', primaryKey = False\<rparr>]"

section \<open>Auxiliary notions for the proofs\<close>


text \<open>
  The invariant of the loop: the counter does not pass the target, the random state is
  the one before the next record, the chunks written are the prologue and the chunks
  of the records so far, in order, and as many records were synthesized as were written.
\<close>

definition session_inv ::
  "'s environment \<Rightarrow> format \<Rightarrow> fieldspec list \<Rightarrow> nat \<Rightarrow> 's \<Rightarrow> 's session \<Rightarrow> bool" where
  "session_inv E fmt ps R s0 st =
     (sentRecords st \<le> R
      \<and> random st = random_before E ps s0 (sentRecords st)
      \<and> written st = prologue fmt ps # map (chunk_at E fmt ps R s0) [0..<sentRecords st]
      \<and> synthesized st = sentRecords st)"

text \<open>
  The invariant between two events: the loop invariant (with the epilogue once the
  response has ended), and the session is either suspended, after at least one and
  fewer than all records, the last write having reported backpressure, or it has ended
  with all records written.
\<close>

definition session_ok ::
  "'s environment \<Rightarrow> format \<Rightarrow> fieldspec list \<Rightarrow> nat \<Rightarrow> 's \<Rightarrow> 's session \<Rightarrow> bool" where
  "session_ok E fmt ps R s0 st =
     (sentRecords st \<le> R
      \<and> random st = random_before E ps s0 (sentRecords st)
      \<and> written st = prologue fmt ps # map (chunk_at E fmt ps R s0) [0..<sentRecords st]
                        @ (if ended st then epilogue fmt else [])
      \<and> synthesized st = sentRecords st
      \<and> (if listening st
          then \<not> ended st \<and> 0 < sentRecords st \<and> sentRecords st < R
               \<and> \<not> res_write E (sentRecords st)
          else ended st \<and> sentRecords st = R))"


section \<open>Lemmas: records\<close>

lemma keys_assign: "fst ` set (assign k v ps) = insert k (fst ` set ps)"
proof (induction ps)
  case Nil
  show ?case by simp
next
  case (Cons p ps)
  obtain k' v' where p: "p = (k', v')" by (cases p)
  show ?case
  proof (cases "k' = k")
    case True
    then show ?thesis using p by simp
  next
    case False
    then show ?thesis using p Cons by (simp add: insert_commute)
  qed
qed

lemma map_of_assign_same: "map_of (assign k v ps) k = Some v"
  by (induction ps) auto

lemma map_of_assign_other: "k' \<noteq> k \<Longrightarrow> map_of (assign k v ps) k' = map_of ps k'"
  by (induction ps) auto

lemma keys_js_set:
  "keys (js_set obj k v) = (if k = ''__proto__'' \<and> \<not> has_own obj k then keys obj else insert k (keys obj))"
  by (simp add: keys_def js_set_def has_own_def keys_assign insert_absorb)

lemma keys_js_set_proto:
  "''__proto__'' \<notin> keys obj \<Longrightarrow> keys (js_set obj ''__proto__'' v) = keys obj"
  by (simp add: js_set_def has_own_def keys_def)

lemma keys_js_set_other:
  "k \<noteq> ''__proto__'' \<Longrightarrow> keys (js_set obj k v) = insert k (keys obj)"
  by (simp add: keys_js_set)

lemma js_get_js_set_same:
  "k \<noteq> ''__proto__'' \<Longrightarrow> js_get (js_set obj k v) k = v"
  by (simp add: js_get_def js_set_def map_of_assign_same)

lemma keys_populate:
  "''__proto__'' \<notin> keys obj \<Longrightarrow>
   keys (fst (populate gen ps obj s)) = keys obj \<union> (set (map name ps) - {''__proto__''})"
proof (induction ps arbitrary: obj s)
  case Nil
  then show ?case by simp
next
  case (Cons p ps)
  obtain v s' where g: "gen p s = (v, s')" by (cases "gen p s")
  show ?case
  proof (cases "name p = ''__proto__''")
    case True
    with Cons g show ?thesis by (auto simp: keys_js_set_proto)
  next
    case False
    with Cons g show ?thesis by (auto simp: keys_js_set_other)
  qed
qed

lemma keys_empty_object: "keys empty_object = {}"
  by (simp add: keys_def empty_object_def)

lemma find_Some_mem: "find P xs = Some x \<Longrightarrow> x \<in> set xs"
  by (induction xs) (auto split: if_splits)

lemma keys_generateRecord:
  "keys (fst (generateRecord P gen ps s)) = set (map name ps) - {''__proto__''}"
proof -
  obtain r s1 where p: "populate gen ps empty_object s = (r, s1)"
    by (cases "populate gen ps empty_object s")
  have kr: "keys r = set (map name ps) - {''__proto__''}"
    using keys_populate [of empty_object gen ps s] p by (simp add: keys_empty_object)
  have pk: "\<And>pk v. find primaryKey ps = Some pk \<Longrightarrow> keys (js_set r (name pk) v) = keys r"
  proof -
    fix pk v assume "find primaryKey ps = Some pk"
    then have "pk \<in> set ps" by (rule find_Some_mem)
    then show "keys (js_set r (name pk) v) = keys r"
      using kr by (cases "name pk = ''__proto__''")
        (auto simp: keys_js_set_proto keys_js_set_other)
  qed
  show ?thesis
    using p kr pk
    by (auto simp: generateRecord_def split: option.splits prod.splits)
qed

lemma find_unique: "filter P xs = [x] \<Longrightarrow> find P xs = Some x"
  by (induction xs) (auto split: if_splits simp: filter_empty_conv find_None_iff)


lemma proto_rule: "generateField_rule \<lparr>name = ''__proto__'', type = ''number'', primaryKey = True\<rparr> = DatatypeNumber"
  by code_simp

lemma proto_rule_index: "index_generateField_rule \<lparr>name = ''__proto__'', type = ''number'', primaryKey = True\<rparr> = DatatypeNumber"
  by code_simp

section \<open>Lemmas: the rule table\<close>

lemma match_at_leading:
  "match_at (Regex True ws) prev s \<Longrightarrow> match_at (Regex False ws) prev s"
  by (auto simp: match_at_def list_ex_iff)

lemma test_from_leading:
  "test_from (Regex True ws) prev s \<Longrightarrow> test_from (Regex False ws) prev s"
  by (induction s arbitrary: prev) (auto simp: match_at_leading)

lemma regex_test_leading:
  "regex_test (Regex True ws) s \<Longrightarrow> regex_test (Regex False ws) s"
  by (simp add: regex_test_def test_from_leading)

lemma rule_differs_only_at_education:
  "generateField_rule prop \<noteq> spec_rule prop \<Longrightarrow> generateField_rule prop = RandomEducationLevel"
  using regex_test_leading [of "[''education'']" "toLowerCase (name prop)"]
  by (simp add: generateField_rule_def spec_rule_def spec_name_patterns_def Let_def split: if_splits)

lemma rule_agrees_when_education_whole_word:
  "regex_test (Regex False [''education'']) (toLowerCase (name prop))
     = regex_test (Regex True [''education'']) (toLowerCase (name prop))
   \<Longrightarrow> generateField_rule prop = spec_rule prop"
  by (simp add: generateField_rule_def spec_rule_def spec_name_patterns_def Let_def)




section \<open>Lemmas: flow control\<close>

lemma loop_body_fields:
  "sentRecords (loop_body E fmt ps R st) = Suc (sentRecords st)"
  "synthesized (loop_body E fmt ps R st) = Suc (synthesized st)"
  "listening (loop_body E fmt ps R st) = listening st"
  "ended (loop_body E fmt ps R st) = ended st"
  "length (written (loop_body E fmt ps R st)) = Suc (length (written st))"
  by (simp_all add: loop_body_def split: prod.splits)

lemma loop_body_inv:
  assumes "session_inv E fmt ps R s0 st" and "sentRecords st < R"
  shows "session_inv E fmt ps R s0 (loop_body E fmt ps R st)"
  using assms
  by (auto simp: session_inv_def loop_body_def chunk_at_def record_at_def split: prod.splits)

lemma generate_loop_stop: "generate_loop E fmt ps R False st = st"
  by (subst generate_loop.simps) simp

lemma generate_loop_done: "\<not> sentRecords st < R \<Longrightarrow> generate_loop E fmt ps R ok st = st"
  by (subst generate_loop.simps) simp

lemma generate_loop_step:
  "sentRecords st < R \<Longrightarrow>
   generate_loop E fmt ps R True st =
     generate_loop E fmt ps R (res_write E (length (written st))) (loop_body E fmt ps R st)"
  by (subst generate_loop.simps) simp

lemma generate_loop_flags:
  "listening (generate_loop E fmt ps R ok st) = listening st
   \<and> ended (generate_loop E fmt ps R ok st) = ended st"
proof (induction E fmt ps R ok st rule: generate_loop.induct)
  case (1 E fmt ps R ok st)
  show ?case
  proof (cases "sentRecords st < R \<and> ok")
    case True
    then show ?thesis
      using 1 by (subst (1 2) generate_loop.simps) (simp add: loop_body_fields)
  next
    case False
    then have "generate_loop E fmt ps R ok st = st" by (subst generate_loop.simps) auto
    then show ?thesis by simp
  qed
qed

lemma generate_loop_inv:
  "session_inv E fmt ps R s0 st \<Longrightarrow> session_inv E fmt ps R s0 (generate_loop E fmt ps R ok st)"
proof (induction E fmt ps R ok st rule: generate_loop.induct)
  case (1 E fmt ps R ok st)
  show ?case
  proof (cases "sentRecords st < R \<and> ok")
    case True
    then have "session_inv E fmt ps R s0 (loop_body E fmt ps R st)"
      using "1.prems" by (simp add: loop_body_inv)
    then show ?thesis
      using True "1.IH" by (subst generate_loop.simps) simp
  next
    case False
    then have "generate_loop E fmt ps R ok st = st" by (subst generate_loop.simps) auto
    then show ?thesis using "1.prems" by simp
  qed
qed

lemma session_inv_length:
  "session_inv E fmt ps R s0 st \<Longrightarrow> length (written st) = Suc (sentRecords st)"
  by (simp add: session_inv_def)

lemma generate_loop_exit:
  "session_inv E fmt ps R s0 st \<Longrightarrow>
   sentRecords (generate_loop E fmt ps R ok st) < R \<Longrightarrow>
     (sentRecords (generate_loop E fmt ps R ok st) = sentRecords st \<and> \<not> ok)
     \<or> (sentRecords st < sentRecords (generate_loop E fmt ps R ok st)
         \<and> \<not> res_write E (sentRecords (generate_loop E fmt ps R ok st)))"
proof (induction E fmt ps R ok st rule: generate_loop.induct)
  case (1 E fmt ps R ok st)
  show ?case
  proof (cases "sentRecords st < R \<and> ok")
    case True
    let ?b = "loop_body E fmt ps R st"
    let ?ok = "res_write E (length (written st))"
    have eq: "generate_loop E fmt ps R ok st = generate_loop E fmt ps R ?ok ?b"
      using True by (subst generate_loop.simps) simp
    have inv: "session_inv E fmt ps R s0 ?b"
      using True "1.prems"(1) by (simp add: loop_body_inv)
    have len: "length (written st) = Suc (sentRecords st)"
      using "1.prems"(1) by (rule session_inv_length)
    from "1.IH" [OF True inv] "1.prems"(2) eq
    have "(sentRecords (generate_loop E fmt ps R ?ok ?b) = sentRecords ?b \<and> \<not> ?ok)
     \<or> (sentRecords ?b < sentRecords (generate_loop E fmt ps R ?ok ?b)
         \<and> \<not> res_write E (sentRecords (generate_loop E fmt ps R ?ok ?b)))"
      by simp
    then show ?thesis
      unfolding eq using len by (auto simp: loop_body_fields)
  next
    case False
    then have "generate_loop E fmt ps R ok st = st" by (subst generate_loop.simps) auto
    then show ?thesis using False "1.prems" by auto
  qed
qed

lemma generate_loop_first_stop:
  "session_inv E fmt ps R s0 st \<Longrightarrow> ok \<Longrightarrow> sentRecords st < N \<Longrightarrow> N \<le> R \<Longrightarrow>
   (\<forall>j. sentRecords st < j \<and> j < N \<longrightarrow> res_write E j) \<Longrightarrow> \<not> res_write E N \<Longrightarrow>
   sentRecords (generate_loop E fmt ps R ok st) = N"
proof (induction E fmt ps R ok st rule: generate_loop.induct)
  case (1 E fmt ps R ok st)
  let ?b = "loop_body E fmt ps R st"
  let ?ok = "res_write E (length (written st))"
  have cond: "sentRecords st < R \<and> ok" using "1.prems" by simp
  have eq: "generate_loop E fmt ps R ok st = generate_loop E fmt ps R ?ok ?b"
    using cond by (subst generate_loop.simps) simp
  have inv: "session_inv E fmt ps R s0 ?b"
    using cond "1.prems"(1) by (simp add: loop_body_inv)
  have len: "length (written st) = Suc (sentRecords st)"
    using "1.prems"(1) by (rule session_inv_length)
  show ?case
  proof (cases "Suc (sentRecords st) = N")
    case True
    then have "\<not> ?ok" using "1.prems"(6) len by simp
    then have "generate_loop E fmt ps R ?ok ?b = ?b" by (simp add: generate_loop_stop)
    then show ?thesis using eq True by (simp add: loop_body_fields)
  next
    case False
    then have lt: "Suc (sentRecords st) < N" using "1.prems"(3) by simp
    then have ok': "?ok" using "1.prems"(5) len by simp
    have "sentRecords (generate_loop E fmt ps R ?ok ?b) = N"
      using "1.IH" [OF cond inv ok'] lt "1.prems" by (simp add: loop_body_fields)
    then show ?thesis using eq by simp
  qed
qed


lemma generate_loop_mono:
  "sentRecords st \<le> sentRecords (generate_loop E fmt ps R ok st)"
proof (induction E fmt ps R ok st rule: generate_loop.induct)
  case (1 E fmt ps R ok st)
  show ?case
  proof (cases "sentRecords st < R \<and> ok")
    case True
    then have "generate_loop E fmt ps R ok st =
        generate_loop E fmt ps R (res_write E (length (written st))) (loop_body E fmt ps R st)"
      by (subst generate_loop.simps) simp
    then show ?thesis using "1.IH" [OF True] by (simp add: loop_body_fields)
  next
    case False
    then have "generate_loop E fmt ps R ok st = st" by (subst generate_loop.simps) auto
    then show ?thesis by simp
  qed
qed

lemma generate_loop_progress:
  "sentRecords st < R \<Longrightarrow> sentRecords st < sentRecords (generate_loop E fmt ps R True st)"
  using generate_loop_mono [of "loop_body E fmt ps R st" E fmt ps R "res_write E (length (written st))"]
  by (simp add: generate_loop_step loop_body_fields)

lemma generate_ok:
  assumes inv: "session_inv E fmt ps R s0 st" and fl: "\<not> listening st" "\<not> ended st"
  shows "session_ok E fmt ps R s0 (generate E fmt ps R st)"
proof -
  let ?st' = "generate_loop E fmt ps R True st"
  have inv': "session_inv E fmt ps R s0 ?st'" using inv by (rule generate_loop_inv)
  have flags: "listening ?st' = listening st" "ended ?st' = ended st"
    using generate_loop_flags [of E fmt ps R True st] by simp_all
  show ?thesis
  proof (cases "sentRecords ?st' < R")
    case True
    with generate_loop_exit [OF inv, of True] have
      "sentRecords st < sentRecords ?st' \<and> \<not> res_write E (sentRecords ?st')" by simp
    then show ?thesis
      using True inv' flags fl by (simp add: generate_def session_ok_def session_inv_def)
  next
    case False
    then show ?thesis
      using inv' flags fl by (simp add: generate_def session_ok_def session_inv_def)
  qed
qed

lemma stream_ok: "session_ok E fmt ps R s0 (stream E fmt ps R s0)"
  unfolding stream_def by (rule generate_ok) (simp_all add: session_inv_def)

lemma resume_inv:
  "session_ok E fmt ps R s0 st \<Longrightarrow> listening st \<Longrightarrow>
   session_inv E fmt ps R s0 (st\<lparr>listening := False\<rparr>)"
  by (simp add: session_ok_def session_inv_def)

lemma on_event_ok:
  "session_ok E fmt ps R s0 st \<Longrightarrow> session_ok E fmt ps R s0 (on_event E fmt ps R ev st)"
proof (cases ev)
  case Drain
  assume ok: "session_ok E fmt ps R s0 st"
  show ?thesis
  proof (cases "listening st")
    case True
    have "\<not> ended st" using ok True by (simp add: session_ok_def)
    then have "session_ok E fmt ps R s0 (generate E fmt ps R (st\<lparr>listening := False\<rparr>))"
      using resume_inv [OF ok True] by (intro generate_ok) simp_all
    then show ?thesis using Drain True by (simp add: on_event_def)
  next
    case False
    then show ?thesis using Drain ok by (simp add: on_event_def)
  qed
next
  case Other
  assume "session_ok E fmt ps R s0 st"
  then show ?thesis using Other by (simp add: on_event_def)
qed

lemma deliver_ok:
  "session_ok E fmt ps R s0 st \<Longrightarrow> session_ok E fmt ps R s0 (deliver E fmt ps R evs st)"
  by (induction evs arbitrary: st) (simp_all add: on_event_ok)

lemma deliver_no_drain:
  "Drain \<notin> set evs \<Longrightarrow> deliver E fmt ps R evs st = st"
proof (induction evs)
  case Nil
  show ?case by simp
next
  case (Cons ev evs)
  then have "ev = Other" by (cases ev) simp_all
  then show ?case using Cons by (simp add: on_event_def)
qed

lemma generate_sent:
  "sentRecords (generate E fmt ps R st) = sentRecords (generate_loop E fmt ps R True st)"
  by (simp add: generate_def Let_def)

lemma drain_progress:
  assumes ok: "session_ok E fmt ps R s0 st" and l: "listening st"
  shows "sentRecords st < sentRecords (on_event E fmt ps R Drain st)"
proof -
  have "sentRecords (st\<lparr>listening := False\<rparr>) < R" using ok l by (simp add: session_ok_def)
  from generate_loop_progress [OF this] show ?thesis
    using l by (simp add: on_event_def generate_sent)
qed

lemma generate_first_stop:
  assumes inv: "session_inv E fmt ps R s0 st"
    and N: "sentRecords st < N" "N < R"
    and before: "\<forall>j. sentRecords st < j \<and> j < N \<longrightarrow> res_write E j"
    and at: "\<not> res_write E N"
  shows "sentRecords (generate E fmt ps R st) = N \<and> listening (generate E fmt ps R st)"
proof -
  have "sentRecords (generate_loop E fmt ps R True st) = N"
    using generate_loop_first_stop [OF inv _ N(1) _ before at] N(2) by simp
  then show ?thesis using N(2) by (simp add: generate_def Let_def)
qed





section \<open>Lemmas: request validation\<close>













section \<open>Record-count estimator: the claimed formula\<close>



section \<open>Suspension and resumption\<close>

lemma deliver_append:
  "deliver E fmt ps R (evs @ evs') st = deliver E fmt ps R evs' (deliver E fmt ps R evs st)"
  by (induction evs arbitrary: st) simp_all

lemma reachable_ok:
  "session_ok E fmt ps R s0 (deliver E fmt ps R evs (stream E fmt ps R s0))"
  by (intro deliver_ok stream_ok)

lemma resumed_chunks:
  assumes ok: "session_ok E fmt ps R s0 st" and l: "listening st"
  shows "written (on_event E fmt ps R Drain st) =
           written st @ map (chunk_at E fmt ps R s0)
                          [sentRecords st..<sentRecords (on_event E fmt ps R Drain st)]
             @ (if ended (on_event E fmt ps R Drain st) then epilogue fmt else [])"
proof -
  let ?st' = "on_event E fmt ps R Drain st"
  have ok': "session_ok E fmt ps R s0 ?st'" using ok by (rule on_event_ok)
  have lt: "sentRecords st \<le> sentRecords ?st'" using drain_progress [OF ok l] by simp
  then have "[0..<sentRecords ?st'] = [0..<sentRecords st] @ [sentRecords st..<sentRecords ?st']"
    by (metis le_add_diff_inverse upt_add_eq_append zero_le)
  then show ?thesis using ok ok' l by (simp add: session_ok_def)
qed

lemma first_stop_after_drain:
  assumes ok: "session_ok E fmt ps R s0 st" and l: "listening st"
    and N: "sentRecords st < N" "N < R"
    and before: "\<forall>j. sentRecords st < j \<and> j < N \<longrightarrow> res_write E j"
    and at: "\<not> res_write E N"
  shows "sentRecords (on_event E fmt ps R Drain st) = N \<and> listening (on_event E fmt ps R Drain st)"
proof -
  have inv: "session_inv E fmt ps R s0 (st\<lparr>listening := False\<rparr>)" using ok l by (rule resume_inv)
  show ?thesis
    using generate_first_stop [OF inv, of N] N before at l by (simp add: on_event_def)
qed

lemma first_stop_of_stream:
  assumes N: "0 < N" "N < R"
    and before: "\<forall>j. 0 < j \<and> j < N \<longrightarrow> res_write E j"
    and at: "\<not> res_write E N"
  shows "sentRecords (stream E fmt ps R s0) = N \<and> listening (stream E fmt ps R s0)"
  unfolding stream_def
  using N before at by (intro generate_first_stop) (simp_all add: session_inv_def)

text \<open>
  C1. Take the state \<open>st\<close> of a session after any sequence of events. As many records
  were synthesized as were written, and the chunks written are the prologue and the
  chunks of records 1 to \<open>sentRecords st\<close>, in order, each once. When the session is
  suspended after \<open>N\<close> records, the write of record \<open>N\<close> reported backpressure and
  \<open>N\<close> is below the target; otherwise the session has ended with all records written.
  Events other than \<^verbatim>\<open>'drain'\<close> change nothing, so no record is synthesized while the
  session is suspended. A \<^verbatim>\<open>'drain'\<close> event resumes with record \<open>N + 1\<close>: what it writes
  is the chunks of the records from \<open>N + 1\<close> on, appended to what was written before.
  And where the sink reports backpressure for the first time at the write of record
  \<open>N\<close>, below the target, the run of \<^verbatim>\<open>generate\<close> stops with exactly \<open>N\<close> records synthesized
  and the session suspended: both for the first run and for a run after \<^verbatim>\<open>'drain'\<close>.
  What the write of the prologue returns is not examined: with a target above 0 the
  first record is always synthesized in the first run.
\<close>

theorem backpressure_suspension:
  assumes reach: "st = deliver E fmt ps R evs (stream E fmt ps R s0)"
  shows "synthesized st = sentRecords st
     \<and> written st = prologue fmt ps # map (chunk_at E fmt ps R s0) [0..<sentRecords st]
                      @ (if ended st then epilogue fmt else [])
     \<and> (listening st \<longrightarrow>
          \<not> ended st \<and> 0 < sentRecords st \<and> sentRecords st < R
          \<and> \<not> res_write E (sentRecords st))
     \<and> (\<not> listening st \<longrightarrow> ended st \<and> sentRecords st = R)
     \<and> (\<forall>evs'. Drain \<notin> set evs' \<longrightarrow> deliver E fmt ps R evs' st = st)
     \<and> (listening st \<longrightarrow>
          sentRecords st < sentRecords (deliver E fmt ps R [Drain] st)
          \<and> written (deliver E fmt ps R [Drain] st) =
              written st @ map (chunk_at E fmt ps R s0)
                             [sentRecords st..<sentRecords (deliver E fmt ps R [Drain] st)]
                @ (if ended (deliver E fmt ps R [Drain] st) then epilogue fmt else []))
     \<and> (\<forall>N. listening st \<and> sentRecords st < N \<and> N < R \<and> \<not> res_write E N
              \<and> (\<forall>j. sentRecords st < j \<and> j < N \<longrightarrow> res_write E j) \<longrightarrow>
            sentRecords (deliver E fmt ps R [Drain] st) = N
            \<and> synthesized (deliver E fmt ps R [Drain] st) = N
            \<and> listening (deliver E fmt ps R [Drain] st))
     \<and> (\<forall>N. 0 < N \<and> N < R \<and> \<not> res_write E N \<and> (\<forall>j. 0 < j \<and> j < N \<longrightarrow> res_write E j) \<longrightarrow>
            sentRecords (stream E fmt ps R s0) = N
            \<and> synthesized (stream E fmt ps R s0) = N
            \<and> listening (stream E fmt ps R s0))
     \<and> (0 < R \<longrightarrow> 0 < synthesized (stream E fmt ps R s0))"
proof -
  have ok: "session_ok E fmt ps R s0 st" unfolding reach by (rule reachable_ok)
  have ok': "session_ok E fmt ps R s0 (on_event E fmt ps R Drain st)"
    using ok by (rule on_event_ok)
  have ok0: "session_ok E fmt ps R s0 (stream E fmt ps R s0)" by (rule stream_ok)
  have a: "synthesized st = sentRecords st" using ok by (simp add: session_ok_def)
  have b: "written st = prologue fmt ps # map (chunk_at E fmt ps R s0) [0..<sentRecords st]
                      @ (if ended st then epilogue fmt else [])"
    using ok by (simp add: session_ok_def)
  have c: "listening st \<longrightarrow>
          \<not> ended st \<and> 0 < sentRecords st \<and> sentRecords st < R
          \<and> \<not> res_write E (sentRecords st)"
    using ok by (simp add: session_ok_def)
  have d: "\<not> listening st \<longrightarrow> ended st \<and> sentRecords st = R"
    using ok by (simp add: session_ok_def)
  have e: "\<forall>evs'. Drain \<notin> set evs' \<longrightarrow> deliver E fmt ps R evs' st = st"
    by (simp add: deliver_no_drain)
  have f: "listening st \<longrightarrow>
          sentRecords st < sentRecords (deliver E fmt ps R [Drain] st)
          \<and> written (deliver E fmt ps R [Drain] st) =
              written st @ map (chunk_at E fmt ps R s0)
                             [sentRecords st..<sentRecords (deliver E fmt ps R [Drain] st)]
                @ (if ended (deliver E fmt ps R [Drain] st) then epilogue fmt else [])"
    using drain_progress [OF ok] resumed_chunks [OF ok] by simp
  have g: "\<forall>N. listening st \<and> sentRecords st < N \<and> N < R \<and> \<not> res_write E N
              \<and> (\<forall>j. sentRecords st < j \<and> j < N \<longrightarrow> res_write E j) \<longrightarrow>
            sentRecords (deliver E fmt ps R [Drain] st) = N
            \<and> synthesized (deliver E fmt ps R [Drain] st) = N
            \<and> listening (deliver E fmt ps R [Drain] st)"
  proof (intro allI impI)
    fix N
    assume h: "listening st \<and> sentRecords st < N \<and> N < R \<and> \<not> res_write E N
              \<and> (\<forall>j. sentRecords st < j \<and> j < N \<longrightarrow> res_write E j)"
    then have "sentRecords (on_event E fmt ps R Drain st) = N
        \<and> listening (on_event E fmt ps R Drain st)"
      using first_stop_after_drain [OF ok, of N] by blast
    moreover have "synthesized (on_event E fmt ps R Drain st)
        = sentRecords (on_event E fmt ps R Drain st)"
      using ok' by (simp add: session_ok_def)
    ultimately show "sentRecords (deliver E fmt ps R [Drain] st) = N
            \<and> synthesized (deliver E fmt ps R [Drain] st) = N
            \<and> listening (deliver E fmt ps R [Drain] st)" by simp
  qed
  have h: "\<forall>N. 0 < N \<and> N < R \<and> \<not> res_write E N \<and> (\<forall>j. 0 < j \<and> j < N \<longrightarrow> res_write E j) \<longrightarrow>
            sentRecords (stream E fmt ps R s0) = N
            \<and> synthesized (stream E fmt ps R s0) = N
            \<and> listening (stream E fmt ps R s0)"
  proof (intro allI impI)
    fix N
    assume "0 < N \<and> N < R \<and> \<not> res_write E N \<and> (\<forall>j. 0 < j \<and> j < N \<longrightarrow> res_write E j)"
    then have "sentRecords (stream E fmt ps R s0) = N \<and> listening (stream E fmt ps R s0)"
      using first_stop_of_stream [of N R E fmt ps s0] by blast
    moreover have "synthesized (stream E fmt ps R s0) = sentRecords (stream E fmt ps R s0)"
      using ok0 by (simp add: session_ok_def)
    ultimately show "sentRecords (stream E fmt ps R s0) = N
            \<and> synthesized (stream E fmt ps R s0) = N
            \<and> listening (stream E fmt ps R s0)" by simp
  qed
  have i: "0 < R \<longrightarrow> 0 < synthesized (stream E fmt ps R s0)"
  proof
    assume "0 < R"
    then have "0 < sentRecords (stream E fmt ps R s0)"
      unfolding stream_def generate_sent
      using generate_loop_progress
              [of "\<lparr>sentRecords = 0, random = s0, written = [prologue fmt ps], synthesized = 0,
                    flushed = 0, listening = False, ended = False\<rparr>" R E fmt ps]
      by simp
    then show "0 < synthesized (stream E fmt ps R s0)"
      using ok0 by (simp add: session_ok_def)
  qed
  show ?thesis using a b c d e f g h i by blast
qed

theorem backpressure_suspension_witness:
  "\<not> res_write example_environment 1
   \<and> sentRecords (stream example_environment CSV example_schema 3 0) = 1
   \<and> synthesized (stream example_environment CSV example_schema 3 0) = 1
   \<and> listening (stream example_environment CSV example_schema 3 0)
   \<and> deliver example_environment CSV example_schema 3 [Other, Other]
        (stream example_environment CSV example_schema 3 0)
       = stream example_environment CSV example_schema 3 0
   \<and> sentRecords (deliver example_environment CSV example_schema 3 [Drain]
        (stream example_environment CSV example_schema 3 0)) = 3
   \<and> ended (deliver example_environment CSV example_schema 3 [Drain]
        (stream example_environment CSV example_schema 3 0))"
proof -
  let ?E = example_environment and ?ps = example_schema
  let ?st = "stream ?E CSV ?ps 3 0"
  let ?st' = "deliver ?E CSV ?ps 3 [Drain] ?st"
  have r0: "?st = deliver ?E CSV ?ps 3 [] ?st" by simp
  have r1: "?st' = deliver ?E CSV ?ps 3 [Drain] ?st" by simp
  have w: "\<not> res_write ?E 1" by (simp add: example_environment_def)
  have w': "\<And>k. \<not> res_write ?E k \<Longrightarrow> k = 1" by (simp add: example_environment_def)
  from backpressure_suspension [OF r0]
  have h: "\<forall>N. 0 < N \<and> N < 3 \<and> \<not> res_write ?E N \<and> (\<forall>j. 0 < j \<and> j < N \<longrightarrow> res_write ?E j) \<longrightarrow>
            sentRecords ?st = N \<and> synthesized ?st = N \<and> listening ?st"
    and e: "\<forall>evs'. Drain \<notin> set evs' \<longrightarrow> deliver ?E CSV ?ps 3 evs' ?st = ?st"
    and f: "listening ?st \<longrightarrow> sentRecords ?st < sentRecords ?st'"
    by blast+
  from h [rule_format, of 1] w have first: "sentRecords ?st = 1 \<and> synthesized ?st = 1 \<and> listening ?st"
    by simp
  from e [rule_format, of "[Other, Other]"] have other: "deliver ?E CSV ?ps 3 [Other, Other] ?st = ?st"
    by simp
  from f first have more: "1 < sentRecords ?st'" by simp
  from backpressure_suspension [OF r1]
  have c: "listening ?st' \<longrightarrow> \<not> res_write ?E (sentRecords ?st')"
    and d: "\<not> listening ?st' \<longrightarrow> ended ?st' \<and> sentRecords ?st' = 3"
    by blast+
  have "\<not> listening ?st'" using c more w' [of "sentRecords ?st'"] by auto
  then have "ended ?st' \<and> sentRecords ?st' = 3" using d by blast
  then show ?thesis using w first other by simp
qed

section \<open>The output of a finished session\<close>











section \<open>The record synthesizer and the key \<^verbatim>\<open>__proto__\<close>\<close>

text \<open>For a primary key with any other name the override is as specified: the value read
  under the key's name is the number drawn between 10 and \<open>10^18\<close> for the type
  \<^verbatim>\<open>number\<close>, the result of \<^verbatim>\<open>uuidv4()\<close> for \<^verbatim>\<open>uuid\<close> and \<^verbatim>\<open>string\<close>, and for another type the
  record is the one the rule table built.\<close>

lemma primary_key_override:
  assumes one: "filter primaryKey ps = [pk]" and nm: "name pk \<noteq> ''__proto__''"
    and pop: "populate gen ps empty_object s = (r0, s1)"
    and res: "generateRecord P gen ps s = (r, s2)"
  shows "(type pk = ''number'' \<longrightarrow>
            js_get r (name pk)
              = VNum (fst (faker_number P (DatatypeNumberMinMax 10 1000000000000000000) s1)))
       \<and> (type pk = ''uuid'' \<or> type pk = ''string'' \<longrightarrow>
            js_get r (name pk) = VStr (fst (faker_string P UuidV4 s1)))
       \<and> (type pk \<noteq> ''number'' \<and> type pk \<noteq> ''uuid'' \<and> type pk \<noteq> ''string'' \<longrightarrow>
            r = r0 \<and> s2 = s1)"
  using res pop nm find_unique [OF one]
  by (auto simp: generateRecord_def js_get_js_set_same split: prod.splits if_splits)

text \<open>So, with libraries that keep their contracts (a number within the bounds passed,
  a version-4 UUID), the value is an integer from 10 to 10^18, or has the shape of a
  version-4 UUID.\<close>

lemma primary_key_in_range:
  assumes one: "filter primaryKey ps = [pk]" and nm: "name pk \<noteq> ''__proto__''"
    and num: "\<And>s. 10 \<le> fst (faker_number P (DatatypeNumberMinMax 10 1000000000000000000) s)
                 \<and> fst (faker_number P (DatatypeNumberMinMax 10 1000000000000000000) s)
                     \<le> 1000000000000000000"
    and uuid: "\<And>s. is_uuid_v4 (fst (faker_string P UuidV4 s))"
  shows "(type pk = ''number'' \<longrightarrow>
            (\<exists>n. js_get (fst (generateRecord P gen ps s)) (name pk) = VNum n
                 \<and> 10 \<le> n \<and> n \<le> 1000000000000000000))
       \<and> (type pk = ''uuid'' \<or> type pk = ''string'' \<longrightarrow>
            (\<exists>u. js_get (fst (generateRecord P gen ps s)) (name pk) = VStr u \<and> is_uuid_v4 u))"
proof -
  obtain r0 s1 where pop: "populate gen ps empty_object s = (r0, s1)"
    by (cases "populate gen ps empty_object s")
  obtain r s2 where res: "generateRecord P gen ps s = (r, s2)"
    by (cases "generateRecord P gen ps s")
  show ?thesis
    using primary_key_override [OF one nm pop res] num [of s1] uuid [of s1] res by auto
qed

text \<open>A field whose name matches the pattern \<^verbatim>\<open>date|dob\<close> holds a \<^verbatim>\<open>Date\<close> object, not a
  string, a number or a boolean.\<close>

lemma date_pattern_stores_object:
  "is_object (fst (generateField P \<lparr>name = ''dob'', type = ''date'', primaryKey = False\<rparr> s))"
proof -
  have "generateField_rule \<lparr>name = ''dob'', type = ''date'', primaryKey = False\<rparr> = DateBirthdate"
    by code_simp
  then show ?thesis
    by (simp add: generateField_def run_generator_def is_object_def split: prod.splits)
qed

text \<open>
  C3. The specification has the primary-key field overwritten by its declared type: for
  the type \<^verbatim>\<open>number\<close> the final value is an integer from 10 to \<open>10^18\<close>. For the schema
  whose one field, the primary key, is named \<^verbatim>\<open>__proto__\<close> and declared \<^verbatim>\<open>number\<close>, the code
  does otherwise, with either \<^verbatim>\<open>generateField\<close>: both assignments to \<^verbatim>\<open>record['__proto__']\<close>
  are swallowed by the inherited setter, and what the streams read under this name is
  \<^verbatim>\<open>Object.prototype\<close>, not a number.
\<close>

theorem primary_key_named_proto:
  "filter primaryKey [\<lparr>name = ''__proto__'', type = ''number'', primaryKey = True\<rparr>]
     = [\<lparr>name = ''__proto__'', type = ''number'', primaryKey = True\<rparr>]
   \<and> js_get (fst (generateRecord P (generateField P)
         [\<lparr>name = ''__proto__'', type = ''number'', primaryKey = True\<rparr>] s)) ''__proto__''
       = VObjectPrototype
   \<and> js_get (fst (generateRecord P (index_generateField P)
         [\<lparr>name = ''__proto__'', type = ''number'', primaryKey = True\<rparr>] s)) ''__proto__''
       = VObjectPrototype"
  by (simp add: generateRecord_def generateField_def index_generateField_def proto_rule
      proto_rule_index run_generator_def js_set_def has_own_def empty_object_def is_object_def
      js_get_def split: prod.splits)

text \<open>
  C7. The specification has the record's keys be exactly the schema's field names. For
  the schema with the primary key \<^verbatim>\<open>id\<close> and a second field named \<^verbatim>\<open>__proto__\<close> the record
  has the single key \<^verbatim>\<open>id\<close>, whatever the libraries return.
\<close>

theorem record_keys_without_proto:
  "keys (fst (generateRecord P gen
       [\<lparr>name = ''id'', type = ''uuid'', primaryKey = True\<rparr>,
        \<lparr>name = ''__proto__'', type = ''string'', primaryKey = False\<rparr>] s)) = {''id''}
   \<and> set (map name [\<lparr>name = ''id'', type = ''uuid'', primaryKey = True\<rparr>,
        \<lparr>name = ''__proto__'', type = ''string'', primaryKey = False\<rparr>]) = {''id'', ''__proto__''}"
  by (auto simp: keys_generateRecord)



section \<open>The rule table against its specification\<close>

text \<open>
  C4. The specification has every name pattern match whole words only. The pattern for
  \<^verbatim>\<open>education\<close> in the code has no leading word boundary: on the field name
  \<^verbatim>\<open>coeducation\<close> with the type \<^verbatim>\<open>string\<close> it matches, and the code selects the education
  level, where the whole-word pattern does not match and the rule of the specification
  is the one of the declared type, a random word.
\<close>

theorem education_pattern_not_whole_word:
  "regex_test (Regex False [''education'']) (toLowerCase ''coeducation'')
   \<and> \<not> regex_test (Regex True [''education'']) (toLowerCase ''coeducation'')
   \<and> generateField_rule \<lparr>name = ''coeducation'', type = ''string'', primaryKey = False\<rparr>
       = RandomEducationLevel
   \<and> spec_rule \<lparr>name = ''coeducation'', type = ''string'', primaryKey = False\<rparr> = LoremWord"
  by code_simp






section \<open>Validation before streaming\<close>




text \<open>A valid request, for comparison: the handler starts the csv stream, which writes the
  header and the first record before the sink of the example reports backpressure.\<close>

lemma example_valid_request_streams:
  "spec_valid_request
     (JObj [(''fileType'', JStr ''csv''), (''fileSize'', JNum 1),
            (''properties'', JArr [JObj [(''name'', JStr ''id''), (''type'', JStr ''uuid''),
                                         (''primaryKey'', JBool True)]])])
   \<and> reply_chunks
       (api_generate example_environment
          (JObj [(''fileType'', JStr ''csv''), (''fileSize'', JNum 1),
                 (''properties'', JArr [JObj [(''name'', JStr ''id''), (''type'', JStr ''uuid''),
                                              (''primaryKey'', JBool True)]])]) 0)
     = [''id'' @ [newline], ''123e4567-e89b-42d3-a456-426614174000'' @ [newline]]"
  by code_simp

end
